theory Spec2Isabelle
  imports Main "HOL-Library.Char_ord" "HOL-Library.List_Lexorder" "HOL-Library.Sublist"
    "HOL-Library.Multiset"
begin

section \<open>Strings\<close>

text \<open>
  A JavaScript string is modelled as \<^typ>\<open>string\<close>: the bytes of its UTF-8 form, so
  that an ASCII character is one \<^typ>\<open>char\<close>. Equality, concatenation, \<open>startsWith\<close>
  and \<open>includes\<close> of well-formed strings are those of the byte sequences. The comparison
  \<open><\<close> is lexicographic, a proper prefix being smaller, which is the order of
  \<^typ>\<open>string\<close> here.

  \<open>String.prototype.toLowerCase\<close> and \<open>String.prototype.toUpperCase\<close> map every cased
  letter by the case tables of the Unicode standard, and may change the length of a
  string. The tables are no part of the repository: the two functions are the fields of
  a record that every operation using them takes as its first argument, and nothing is
  assumed of them.
\<close>

record Builtins =
  toLowerCase :: "string \<Rightarrow> string"
  toUpperCase :: "string \<Rightarrow> string"

text \<open>\<open>s.startsWith(p)\<close> and \<open>s.includes(p)\<close>.\<close>

fun startsWith :: "string \<Rightarrow> string \<Rightarrow> bool" where
  "startsWith s [] = True"
| "startsWith [] (p # ps) = False"
| "startsWith (c # s) (p # ps) = (c = p \<and> startsWith s ps)"

fun includes' :: "string \<Rightarrow> string \<Rightarrow> bool" where
  "includes' [] p = (p = [])"
| "includes' (c # s) p = (startsWith (c # s) p \<or> includes' s p)"

text \<open>\<open>s.trim()\<close> removes white space and line terminators from both ends. These are
  the code points U+0009 to U+000D, U+0020, U+00A0, U+1680, U+2000 to U+200A, U+2028,
  U+2029, U+202F, U+205F, U+3000 and U+FEFF, here in their UTF-8 forms.\<close>

definition whiteSpace :: "string list" where
  "whiteSpace =
     [[CHR 0x09], [CHR 0x0A], [CHR 0x0B], [CHR 0x0C], [CHR 0x0D], [CHR 0x20],
      [CHR 0xC2, CHR 0xA0],
      [CHR 0xE1, CHR 0x9A, CHR 0x80],
      [CHR 0xE2, CHR 0x80, CHR 0x80], [CHR 0xE2, CHR 0x80, CHR 0x81],
      [CHR 0xE2, CHR 0x80, CHR 0x82], [CHR 0xE2, CHR 0x80, CHR 0x83],
      [CHR 0xE2, CHR 0x80, CHR 0x84], [CHR 0xE2, CHR 0x80, CHR 0x85],
      [CHR 0xE2, CHR 0x80, CHR 0x86], [CHR 0xE2, CHR 0x80, CHR 0x87],
      [CHR 0xE2, CHR 0x80, CHR 0x88], [CHR 0xE2, CHR 0x80, CHR 0x89],
      [CHR 0xE2, CHR 0x80, CHR 0x8A],
      [CHR 0xE2, CHR 0x80, CHR 0xA8], [CHR 0xE2, CHR 0x80, CHR 0xA9],
      [CHR 0xE2, CHR 0x80, CHR 0xAF],
      [CHR 0xE2, CHR 0x81, CHR 0x9F],
      [CHR 0xE3, CHR 0x80, CHR 0x80],
      [CHR 0xEF, CHR 0xBB, CHR 0xBF]]"

text \<open>The string without the members of \<open>ws\<close> it begins with, one after the other.\<close>

function stripLeading :: "string list \<Rightarrow> string \<Rightarrow> string" where
  "stripLeading ws s =
     (case find (\<lambda>w. w \<noteq> [] \<and> prefix w s) ws of
        None \<Rightarrow> s
      | Some w \<Rightarrow> stripLeading ws (drop (length w) s))"
  by pat_completeness auto
termination
proof (relation "measure (\<lambda>(ws, s). length s)")
  show "wf (measure (\<lambda>(ws, s). length s))" by simp
next
  fix ws :: "string list" and s w :: string
  assume "find (\<lambda>w. w \<noteq> [] \<and> prefix w s) ws = Some w"
  then have "w \<noteq> []" and "prefix w s"
    by (auto simp: find_Some_iff)
  then have "s \<noteq> []" by auto
  with \<open>w \<noteq> []\<close> show "((ws, drop (length w) s), (ws, s)) \<in> measure (\<lambda>(ws, s). length s)"
    by simp
qed

declare stripLeading.simps [simp del]

definition trim :: "string \<Rightarrow> string" where
  "trim s = rev (stripLeading (map rev whiteSpace) (rev (stripLeading whiteSpace s)))"

text \<open>The decimal form of an integer, as a template literal prints a number that is
  an integer.\<close>

fun digitsOf :: "nat \<Rightarrow> string" where
  "digitsOf n =
     (if n < 10 then [''0123456789'' ! n]
      else digitsOf (n div 10) @ [''0123456789'' ! (n mod 10)])"

declare digitsOf.simps [simp del]

definition numberToString :: "int \<Rightarrow> string" where
  "numberToString n = (if n < 0 then CHR ''-'' # digitsOf (nat (- n)) else digitsOf (nat n))"

section \<open>Courses\<close>

text \<open>The type \<open>Course\<close>. The fields \<open>id\<close>, \<open>term\<close> and \<open>when\<close> carry a prime, their
  names being taken in Isabelle.\<close>

record Course =
  id' :: string
  name :: string
  credit :: string
  term' :: string
  when' :: string
  expects :: string
  remark :: string
  description :: string
  organizer :: string
  year :: int
  key :: string

text \<open>\<open>courseCompare\<close>: the comparator of the canonical order.\<close>

definition courseCompare :: "Course \<Rightarrow> Course \<Rightarrow> int" where
  "courseCompare a b = (if key a < key b then - 1 else if key a > key b then 1 else 0)"

text \<open>\<open>courseContainsString\<close>: the query is lowered once, then looked for in the lowered
  fields; the description takes part only under \<open>useDescription\<close>.\<close>

definition courseContainsString :: "Builtins \<Rightarrow> Course \<Rightarrow> string \<Rightarrow> bool \<Rightarrow> bool" where
  "courseContainsString js c s0 useDescription =
     (let s = toLowerCase js s0 in
        includes' (toLowerCase js (id' c)) s \<or>
        includes' (toLowerCase js (name c)) s \<or>
        includes' (toLowerCase js (credit c)) s \<or>
        includes' (toLowerCase js (term' c)) s \<or>
        includes' (toLowerCase js (when' c)) s \<or>
        includes' (toLowerCase js (expects c)) s \<or>
        includes' (toLowerCase js (remark c)) s \<or>
        includes' (toLowerCase js (organizer c)) s \<or>
        (useDescription \<and> includes' (toLowerCase js (description c)) s))"

section \<open>Parsing a table\<close>

text \<open>
  The values a decoded row may hold. An object is the list of its properties; an array
  is an object whose property names are its indices.
\<close>

datatype jsvalue =
    JUndefined
  | JNull
  | JBoolean bool
  | JNumber int
  | JString string
  | JObject "(string \<times> jsvalue) list"

fun typeof :: "jsvalue \<Rightarrow> string" where
  "typeof JUndefined = ''undefined''"
| "typeof JNull = ''object''"
| "typeof (JBoolean b) = ''boolean''"
| "typeof (JNumber n) = ''number''"
| "typeof (JString s) = ''string''"
| "typeof (JObject ps) = ''object''"

text \<open>\<open>k in row\<close> and \<open>row[k]\<close>. Both are reached for objects only: the test of the row's
  type stands before them in the conjunction. The properties are the object's own; none
  of the column names is a name that objects inherit.\<close>

fun hasProperty :: "string \<Rightarrow> jsvalue \<Rightarrow> bool" where
  "hasProperty k (JObject ps) = (map_of ps k \<noteq> None)"
| "hasProperty k v = False"

fun getProperty :: "jsvalue \<Rightarrow> string \<Rightarrow> jsvalue" where
  "getProperty (JObject ps) k = (case map_of ps k of Some v \<Rightarrow> v | None \<Rightarrow> JUndefined)"
| "getProperty v k = JUndefined"

text \<open>The characters of a value that the type test has shown to be a string.\<close>

fun stringOf :: "jsvalue \<Rightarrow> string" where
  "stringOf (JString s) = s"
| "stringOf v = []"

text \<open>The nine column names, as the bytes of their UTF-8 form: subject number, subject
  name, credits, term, day and period, standard year, remark, outline, teacher.\<close>

definition colId :: string where
  "colId = [CHR 0xE7, CHR 0xA7, CHR 0x91, CHR 0xE7, CHR 0x9B, CHR 0xAE,
            CHR 0xE7, CHR 0x95, CHR 0xAA, CHR 0xE5, CHR 0x8F, CHR 0xB7]"

definition colName :: string where
  "colName = [CHR 0xE7, CHR 0xA7, CHR 0x91, CHR 0xE7, CHR 0x9B, CHR 0xAE,
              CHR 0xE5, CHR 0x90, CHR 0x8D]"

definition colCredit :: string where
  "colCredit = [CHR 0xE5, CHR 0x8D, CHR 0x98, CHR 0xE4, CHR 0xBD, CHR 0x8D,
                CHR 0xE6, CHR 0x95, CHR 0xB0]"

definition colTerm :: string where
  "colTerm = [CHR 0xE5, CHR 0xAE, CHR 0x9F, CHR 0xE6, CHR 0x96, CHR 0xBD,
              CHR 0xE5, CHR 0xAD, CHR 0xA6, CHR 0xE6, CHR 0x9C, CHR 0x9F]"

definition colWhen :: string where
  "colWhen = [CHR 0xE6, CHR 0x9B, CHR 0x9C, CHR 0xE6, CHR 0x99, CHR 0x82,
              CHR 0xE9, CHR 0x99, CHR 0x90]"

definition colExpects :: string where
  "colExpects = [CHR 0xE6, CHR 0xA8, CHR 0x99, CHR 0xE6, CHR 0xBA, CHR 0x96,
                 CHR 0xE5, CHR 0xB1, CHR 0xA5, CHR 0xE4, CHR 0xBF, CHR 0xAE,
                 CHR 0xE5, CHR 0xB9, CHR 0xB4, CHR 0xE6, CHR 0xAC, CHR 0xA1]"

definition colRemark :: string where
  "colRemark = [CHR 0xE5, CHR 0x82, CHR 0x99, CHR 0xE8, CHR 0x80, CHR 0x83]"

definition colDescription :: string where
  "colDescription = [CHR 0xE6, CHR 0x8E, CHR 0x88, CHR 0xE6, CHR 0xA5, CHR 0xAD,
                     CHR 0xE6, CHR 0xA6, CHR 0x82, CHR 0xE8, CHR 0xA6, CHR 0x81]"

definition colOrganizer :: string where
  "colOrganizer = [CHR 0xE6, CHR 0x8B, CHR 0x85, CHR 0xE5, CHR 0xBD, CHR 0x93,
                   CHR 0xE6, CHR 0x95, CHR 0x99, CHR 0xE5, CHR 0x93, CHR 0xA1]"

text \<open>What the decoder returns: the rows and the errors it met. An error has a type, a
  code, a message and, when it belongs to one, a row.\<close>

record ParseError =
  type' :: string
  code' :: string
  message :: string
  row' :: "nat option"

record ParseResult =
  data :: "jsvalue list"
  errors :: "ParseError list"

text \<open>The guard of the row loop of \<open>parseCoursesCsv\<close>: the row is an object and each of
  the nine columns is in it with a string.\<close>

definition rowIsWellTyped :: "jsvalue \<Rightarrow> bool" where
  "rowIsWellTyped row =
     (typeof row = ''object'' \<and> row \<noteq> JNull \<and>
      hasProperty colId row \<and> typeof (getProperty row colId) = ''string'' \<and>
      hasProperty colName row \<and> typeof (getProperty row colName) = ''string'' \<and>
      hasProperty colCredit row \<and> typeof (getProperty row colCredit) = ''string'' \<and>
      hasProperty colTerm row \<and> typeof (getProperty row colTerm) = ''string'' \<and>
      hasProperty colWhen row \<and> typeof (getProperty row colWhen) = ''string'' \<and>
      hasProperty colExpects row \<and> typeof (getProperty row colExpects) = ''string'' \<and>
      hasProperty colRemark row \<and> typeof (getProperty row colRemark) = ''string'' \<and>
      hasProperty colDescription row \<and> typeof (getProperty row colDescription) = ''string'' \<and>
      hasProperty colOrganizer row \<and> typeof (getProperty row colOrganizer) = ''string'')"

text \<open>The body of the row loop: \<open>courses\<close> is the array built so far; a row that fails
  the guard, or whose subject number trims to the empty string, leaves it as it is.\<close>

fun parseRows :: "int \<Rightarrow> jsvalue list \<Rightarrow> Course list \<Rightarrow> Course list" where
  "parseRows yr [] courses = courses"
| "parseRows yr (row # rows) courses =
     (if \<not> rowIsWellTyped row then parseRows yr rows courses
      else
        let i = trim (stringOf (getProperty row colId)) in
        if i = [] then parseRows yr rows courses
        else parseRows yr rows (courses @
          [\<lparr> id' = i,
             name = trim (stringOf (getProperty row colName)),
             credit = trim (stringOf (getProperty row colCredit)),
             term' = trim (stringOf (getProperty row colTerm)),
             when' = trim (stringOf (getProperty row colWhen)),
             expects = trim (stringOf (getProperty row colExpects)),
             remark = trim (stringOf (getProperty row colRemark)),
             description = trim (stringOf (getProperty row colDescription)),
             organizer = trim (stringOf (getProperty row colOrganizer)),
             year = yr,
             key = i @ '','' @ numberToString yr \<rparr>]))"

text \<open>\<open>parseCoursesCsv\<close>. The decoder is a library outside the repository: it is the
  parameter \<open>parse\<close>, called with the header option. \<open>None\<close> is \<open>undefined\<close>.\<close>

definition parseCoursesCsv :: "(string \<Rightarrow> ParseResult) \<Rightarrow> string \<Rightarrow> int \<Rightarrow> Course list option" where
  "parseCoursesCsv parse csv yr =
     (let result = parse csv in
      if length (errors result) > 0 then None
      else Some (parseRows yr (data result) []))"

text \<open>\<open>assert\<close> and \<open>loadCourses\<close>. A source that fails to parse makes the assertion
  throw; past the assertion the parse result is an array, whose records are pushed in
  turn, and the whole array is sorted once. The three texts are build-time constants
  outside the repository's code: they are parameters.\<close>

datatype error = Error string

definition assert' :: "bool \<Rightarrow> error + unit" where
  "assert' b = (if \<not> b then Inl (Error ''Assertion failed'') else Inr ())"

fun loadLoop ::
  "(string \<Rightarrow> ParseResult) \<Rightarrow> (string \<times> int) list \<Rightarrow> Course list \<Rightarrow> error + Course list" where
  "loadLoop parse [] courses = Inr courses"
| "loadLoop parse ((csv, yr) # sources) courses =
     (let cs = parseCoursesCsv parse csv yr in
      case assert' (cs \<noteq> None) of
        Inl e \<Rightarrow> Inl e
      | Inr u \<Rightarrow>
          (case cs of
             Some parsed \<Rightarrow> loadLoop parse sources (courses @ parsed)
           | None \<Rightarrow> loadLoop parse sources courses))"

text \<open>\<open>Array.prototype.sort\<close> with a comparator is a stable sort; it is modelled by
  stable insertion, an element going before the first one it does not exceed.\<close>

fun insertSorted :: "('a \<Rightarrow> 'a \<Rightarrow> int) \<Rightarrow> 'a \<Rightarrow> 'a list \<Rightarrow> 'a list" where
  "insertSorted cmp x [] = [x]"
| "insertSorted cmp x (y # ys) =
     (if cmp x y \<le> 0 then x # y # ys else y # insertSorted cmp x ys)"

fun arraySort :: "('a \<Rightarrow> 'a \<Rightarrow> int) \<Rightarrow> 'a list \<Rightarrow> 'a list" where
  "arraySort cmp [] = []"
| "arraySort cmp (x # xs) = insertSorted cmp x (arraySort cmp xs)"

definition loadCoursesFrom ::
  "(string \<Rightarrow> ParseResult) \<Rightarrow> (string \<times> int) list \<Rightarrow> error + Course list" where
  "loadCoursesFrom parse sources =
     (case loadLoop parse sources [] of
        Inl e \<Rightarrow> Inl e
      | Inr courses \<Rightarrow> Inr (arraySort courseCompare courses))"

definition loadCourses ::
  "(string \<Rightarrow> ParseResult) \<Rightarrow> string \<Rightarrow> string \<Rightarrow> string \<Rightarrow> error + Course list" where
  "loadCourses parse courses2023Csv courses2024Csv courses2025Csv =
     loadCoursesFrom parse
       [(courses2023Csv, 2023), (courses2024Csv, 2024), (courses2025Csv, 2025)]"

section \<open>The derived view\<close>

text \<open>
  The state of the page. The cap is bound to a number field, so at run time it holds a
  number or, when the field is empty or its text is no number, \<open>null\<close>. The values:
  \<^item> \<open>Number k\<close>, an integer;
  \<^item> \<open>Fraction m e\<close>, the number \<open>m / 2\<^sup>e\<close> that is no integer (\<open>m\<close> odd, \<open>e\<close> positive):
    every finite double is an integer or of this form;
  \<^item> \<open>NaN\<close>, \<open>Infinity\<close>, \<open>NegInfinity\<close>;
  \<^item> \<open>Null\<close>, which \<open>+\<close> takes for zero.

  A sum with a fraction is rounded to the nearest double, ties to the even mantissa
  of 53 bits. The sum of two integers is taken exactly: the length of an array is below
  \<open>2\<^sup>3\<^sup>2\<close>, and sums of integers below \<open>2\<^sup>5\<^sup>3\<close> are exact in the code as well.
  \<open>===\<close> is false whenever an operand is \<open>NaN\<close>.
\<close>

datatype IdFilterMode = IdPrefix | IdContain

datatype NameFilterMode = NameContain | NameExact

datatype number = Number int | Fraction int nat | NaN | Infinity | NegInfinity | Null

text \<open>The number of binary digits of a positive integer.\<close>

function bitLength :: "int \<Rightarrow> nat" where
  "bitLength m = (if m \<le> 0 then 0 else Suc (bitLength (m div 2)))"
  by pat_completeness auto
termination
  by (relation "measure nat") auto

declare bitLength.simps [simp del]

text \<open>\<open>m / 2\<^sup>d\<close> rounded to an integer, a tie going to the even one.\<close>

definition roundHalfEven :: "int \<Rightarrow> nat \<Rightarrow> int" where
  "roundHalfEven m d =
     (let f = m div 2 ^ d; r = m mod 2 ^ d; half = 2 ^ d div 2
      in if d = 0 then m
         else if r > half \<or> (r = half \<and> odd f) then f + 1 else f)"

text \<open>The value \<open>m / 2\<^sup>e\<close> in lowest terms.\<close>

fun normalize' :: "int \<Rightarrow> nat \<Rightarrow> number" where
  "normalize' m 0 = Number m"
| "normalize' m (Suc e) = (if even m then normalize' (m div 2) e else Fraction m (Suc e))"

text \<open>The double nearest to \<open>m / 2\<^sup>e\<close>.\<close>

definition roundToDouble :: "int \<Rightarrow> nat \<Rightarrow> number" where
  "roundToDouble m e =
     (let b = bitLength \<bar>m\<bar>
      in if b \<le> 53 then normalize' m e
         else
           let d = b - 53; r = roundHalfEven m d
           in if d \<le> e then normalize' r (e - d) else Number (r * 2 ^ (d - e)))"

fun toNumber :: "number \<Rightarrow> number" where
  "toNumber Null = Number 0"
| "toNumber n = n"

fun addNumbers :: "number \<Rightarrow> number \<Rightarrow> number" where
  "addNumbers NaN b = NaN"
| "addNumbers a NaN = NaN"
| "addNumbers Infinity NegInfinity = NaN"
| "addNumbers NegInfinity Infinity = NaN"
| "addNumbers Infinity b = Infinity"
| "addNumbers a Infinity = Infinity"
| "addNumbers NegInfinity b = NegInfinity"
| "addNumbers a NegInfinity = NegInfinity"
| "addNumbers (Number x) (Number y) = Number (x + y)"
| "addNumbers (Number x) (Fraction m e) = roundToDouble (x * 2 ^ e + m) e"
| "addNumbers (Fraction m e) (Number y) = roundToDouble (m + y * 2 ^ e) e"
| "addNumbers (Fraction m e) (Fraction n f) = roundToDouble (m * 2 ^ f + n * 2 ^ e) (e + f)"
| "addNumbers a b = NaN"

definition numberAdd :: "number \<Rightarrow> number \<Rightarrow> number" where
  "numberAdd a b = addNumbers (toNumber a) (toNumber b)"

fun strictEquals :: "number \<Rightarrow> number \<Rightarrow> bool" where
  "strictEquals (Number a) (Number b) = (a = b)"
| "strictEquals (Fraction m e) (Fraction n f) = (m = n \<and> e = f)"
| "strictEquals Infinity Infinity = True"
| "strictEquals NegInfinity NegInfinity = True"
| "strictEquals Null Null = True"
| "strictEquals a b = False"

record State =
  idFilter :: string
  idFilterMode :: IdFilterMode
  nameFilter :: string
  nameFilterMode :: NameFilterMode
  yearFilter :: "int set"
  priorityString :: string
  showDescription :: bool
  maxVisibleCourseCount :: number

text \<open>The three conjuncts of the filter, in the order of the source.\<close>

definition idMatches :: "Builtins \<Rightarrow> State \<Rightarrow> Course \<Rightarrow> bool" where
  "idMatches js st c =
     (let idPrefix = (idFilterMode st = IdPrefix);
          uppercaseIdFilter = toUpperCase js (idFilter st)
      in if idPrefix then startsWith (id' c) uppercaseIdFilter
         else includes' (id' c) uppercaseIdFilter)"

definition nameMatches :: "Builtins \<Rightarrow> State \<Rightarrow> Course \<Rightarrow> bool" where
  "nameMatches js st c =
     (let nameExact = (nameFilterMode st = NameExact);
          lowercaseNameFilter = toLowerCase js (nameFilter st)
      in if nameExact then name c = nameFilter st
         else includes' (toLowerCase js (name c)) lowercaseNameFilter)"

definition yearMatches :: "State \<Rightarrow> Course \<Rightarrow> bool" where
  "yearMatches st c = (year c \<in> yearFilter st)"

definition passesFilters :: "Builtins \<Rightarrow> State \<Rightarrow> Course \<Rightarrow> bool" where
  "passesFilters js st c = (idMatches js st c \<and> nameMatches js st c \<and> yearMatches st c)"

text \<open>The first page of the repository compares the identifier with the filter text as
  typed.\<close>

definition idMatchesAsTyped :: "State \<Rightarrow> Course \<Rightarrow> bool" where
  "idMatchesAsTyped st c =
     (if idFilterMode st = IdPrefix then startsWith (id' c) (idFilter st)
      else includes' (id' c) (idFilter st))"

text \<open>The filter loop: \<open>visibleCourses\<close> is the array built so far. A record that passes
  is pushed; when the length reaches the cap plus one it is popped again, \<open>maxExceeded\<close>
  is set and the loop is left. The pair is \<open>(visibleCourses, maxExceeded)\<close>.\<close>

fun visibleLoop ::
  "(Course \<Rightarrow> bool) \<Rightarrow> number \<Rightarrow> Course list \<Rightarrow> Course list \<Rightarrow> Course list \<times> bool" where
  "visibleLoop passes cap [] visibleCourses = (visibleCourses, False)"
| "visibleLoop passes cap (c # cs) visibleCourses =
     (if \<not> passes c then visibleLoop passes cap cs visibleCourses
      else
        let pushed = visibleCourses @ [c] in
        if strictEquals (Number (int (length pushed))) (numberAdd cap (Number 1))
        then (butlast pushed, True)
        else visibleLoop passes cap cs pushed)"

definition filterCourses :: "Builtins \<Rightarrow> State \<Rightarrow> Course list \<Rightarrow> Course list \<times> bool" where
  "filterCourses js st courses =
     visibleLoop (passesFilters js st) (maxVisibleCourseCount st) courses []"

text \<open>\<open>sortByKeyCached\<close>: the keys are computed once, the pairs sorted by the difference
  of their keys, and the array is overwritten index by index.\<close>

definition sortByKeyCached :: "'a list \<Rightarrow> ('a \<Rightarrow> int) \<Rightarrow> 'a list" where
  "sortByKeyCached ts getKey =
     (let pairs = arraySort (\<lambda>a b. fst a - fst b) (map (\<lambda>t. (getKey t, t)) ts)
      in fold (\<lambda>i ts'. ts'[i := snd (pairs ! i)]) [0 ..< length ts] ts)"

text \<open>The count of the records at the head of the array that contain the priority
  string; the loop is left at the first that does not.\<close>

fun countPrioritized :: "(Course \<Rightarrow> bool) \<Rightarrow> Course list \<Rightarrow> nat \<Rightarrow> nat" where
  "countPrioritized contains [] prioritizedCount = prioritizedCount"
| "countPrioritized contains (c # cs) prioritizedCount =
     (if contains c then countPrioritized contains cs (prioritizedCount + 1)
      else prioritizedCount)"

text \<open>The ranking step. The key of a record is the negated truth value: \<open>-1\<close> for a
  record that contains the string, \<open>0\<close> for one that does not. \<open>None\<close> is \<open>undefined\<close>.\<close>

definition prioritize ::
  "Builtins \<Rightarrow> string \<Rightarrow> bool \<Rightarrow> Course list \<Rightarrow> Course list \<times> nat option" where
  "prioritize js priorityStr showDesc visibleCourses =
     (if priorityStr \<noteq> [] then
        let ranked = sortByKeyCached visibleCourses
              (\<lambda>c. - (if courseContainsString js c priorityStr showDesc then 1 else 0))
        in (ranked,
            Some (countPrioritized (\<lambda>c. courseContainsString js c priorityStr showDesc) ranked 0))
      else (visibleCourses, None))"

text \<open>The run counts: a new count is opened when the identifier differs from the last
  one seen, and the last count is incremented. The array is never empty at the
  increment; were it, an assignment at index \<open>-1\<close> would leave its elements alone.\<close>

fun duplicateCounts :: "Course list \<Rightarrow> int list \<Rightarrow> string option \<Rightarrow> int list" where
  "duplicateCounts [] duplicateCourseIdCounts lastCourseId = duplicateCourseIdCounts"
| "duplicateCounts (c # cs) duplicateCourseIdCounts lastCourseId =
     (let opened = (lastCourseId \<noteq> Some (id' c));
          counts = (if opened then duplicateCourseIdCounts @ [0] else duplicateCourseIdCounts);
          lastId = (if opened then Some (id' c) else lastCourseId);
          counts' = (if counts = [] then counts
                     else counts[length counts - 1 := counts ! (length counts - 1) + 1])
      in duplicateCounts cs counts' lastId)"

text \<open>The spans: each count, followed by one zero less than the count says.\<close>

fun rowSpans :: "int list \<Rightarrow> int list \<Rightarrow> int list" where
  "rowSpans [] visibleCourseIdRowSpans = visibleCourseIdRowSpans"
| "rowSpans (count' # counts) visibleCourseIdRowSpans =
     rowSpans counts (visibleCourseIdRowSpans @ [count'] @ replicate (nat (count' - 1)) 0)"

definition visibleCourseIdRowSpans :: "Course list \<Rightarrow> int list" where
  "visibleCourseIdRowSpans visibleCourses = rowSpans (duplicateCounts visibleCourses [] None) []"

text \<open>The whole derivation: filter, rank, spans.\<close>

definition derived ::
  "Builtins \<Rightarrow> State \<Rightarrow> Course list \<Rightarrow> Course list \<times> int list \<times> bool \<times> nat option" where
  "derived js st courses =
     (let (visibleCourses, maxExceeded) = filterCourses js st courses;
          (ranked, prioritizedCount) =
            prioritize js (priorityString st) (showDescription st) visibleCourses
      in (ranked, visibleCourseIdRowSpans ranked, maxExceeded, prioritizedCount))"

section \<open>Notions of the specification\<close>

text \<open>A string is trimmed when it neither begins nor ends with white space.\<close>

definition trimmed :: "string \<Rightarrow> bool" where
  "trimmed s = (\<forall>w \<in> set whiteSpace. \<not> prefix w s \<and> \<not> suffix w s)"

text \<open>The nine fields of a record that come from the table.\<close>

definition fieldsOf :: "Course \<Rightarrow> string list" where
  "fieldsOf c = [id' c, name c, credit c, term' c, when' c, expects c, remark c,
                 description c, organizer c]"

definition requiredColumns :: "string list" where
  "requiredColumns = [colId, colName, colCredit, colTerm, colWhen, colExpects, colRemark,
                      colDescription, colOrganizer]"

text \<open>A row is skipped when it misses a required column, when one of these cells is not
  a string, or when its identifier trims to the empty string.\<close>

definition rowSkipped :: "jsvalue \<Rightarrow> bool" where
  "rowSkipped row =
     ((\<exists>k \<in> set requiredColumns.
         \<not> hasProperty k row \<or> typeof (getProperty row k) \<noteq> ''string'') \<or>
      trim (stringOf (getProperty row colId)) = [])"

text \<open>The record of an accepted row: the trimmed cells, the year of the call, and the
  sort key made of identifier, comma and year.\<close>

definition recordOfRow :: "int \<Rightarrow> jsvalue \<Rightarrow> Course" where
  "recordOfRow yr row =
     \<lparr> id' = trim (stringOf (getProperty row colId)),
       name = trim (stringOf (getProperty row colName)),
       credit = trim (stringOf (getProperty row colCredit)),
       term' = trim (stringOf (getProperty row colTerm)),
       when' = trim (stringOf (getProperty row colWhen)),
       expects = trim (stringOf (getProperty row colExpects)),
       remark = trim (stringOf (getProperty row colRemark)),
       description = trim (stringOf (getProperty row colDescription)),
       organizer = trim (stringOf (getProperty row colOrganizer)),
       year = yr,
       key = trim (stringOf (getProperty row colId)) @ '','' @ numberToString yr \<rparr>"

text \<open>Containment without regard to case, as the ranking has it: both sides are
  lowered, then one is looked for as a contiguous part of the other.\<close>

definition containsIgnoringCase :: "Builtins \<Rightarrow> string \<Rightarrow> string \<Rightarrow> bool" where
  "containsIgnoringCase js field q = sublist (toLowerCase js q) (toLowerCase js field)"

text \<open>A record matches a query when one of identifier, title, credit value, term,
  schedule, expected year, remark and organizer contains it without regard to case; the
  description counts as well when it is included.\<close>

definition matchesQuery :: "Builtins \<Rightarrow> string \<Rightarrow> bool \<Rightarrow> Course \<Rightarrow> bool" where
  "matchesQuery js q includeDescriptionField c =
     (\<exists>f \<in> set ([id' c, name c, credit c, term' c, when' c, expects c, remark c, organizer c]
                  @ (if includeDescriptionField then [description c] else [])).
        containsIgnoringCase js f q)"

text \<open>Prefix and part of an identifier with case ignored: both sides are raised to
  upper case, then compared.\<close>

definition prefixIgnoringCase :: "Builtins \<Rightarrow> string \<Rightarrow> string \<Rightarrow> bool" where
  "prefixIgnoringCase js q field = prefix (toUpperCase js q) (toUpperCase js field)"

definition partIgnoringCase :: "Builtins \<Rightarrow> string \<Rightarrow> string \<Rightarrow> bool" where
  "partIgnoringCase js q field = sublist (toUpperCase js q) (toUpperCase js field)"

text \<open>Runs of equal identifiers: a position starts a run when it is the first or its
  identifier differs from the one before; the run from a position goes on as long as
  the identifier stays the same.\<close>

definition startsRun :: "Course list \<Rightarrow> nat \<Rightarrow> bool" where
  "startsRun cs j = (j = 0 \<or> id' (cs ! (j - 1)) \<noteq> id' (cs ! j))"

definition runLengthAt :: "Course list \<Rightarrow> nat \<Rightarrow> nat" where
  "runLengthAt cs j = length (takeWhile (\<lambda>d. id' d = id' (cs ! j)) (drop j cs))"

text \<open>The spans by recursion from the left, \<open>prev\<close> being the identifier just seen: zero
  where the identifier repeats, else one more than the records that follow with it.\<close>

fun spansFrom :: "string option \<Rightarrow> Course list \<Rightarrow> int list" where
  "spansFrom prev [] = []"
| "spansFrom prev (c # cs) =
     (if prev = Some (id' c) then 0
      else 1 + int (length (takeWhile (\<lambda>d. id' d = id' c) cs))) # spansFrom (Some (id' c)) cs"

section \<open>Sample data\<close>

text \<open>On strings of ASCII characters the two case maps act on the letters \<open>a\<close> to \<open>z\<close>
  and \<open>A\<close> to \<open>Z\<close> and leave the rest. The examples are such strings, so they are
  evaluated with these maps.\<close>

definition asciiToUpperCaseChar :: "char \<Rightarrow> char" where
  "asciiToUpperCaseChar c =
     (case map_of (zip ''abcdefghijklmnopqrstuvwxyz'' ''ABCDEFGHIJKLMNOPQRSTUVWXYZ'') c of
        Some u \<Rightarrow> u
      | None \<Rightarrow> c)"

definition asciiToLowerCaseChar :: "char \<Rightarrow> char" where
  "asciiToLowerCaseChar c =
     (case map_of (zip ''ABCDEFGHIJKLMNOPQRSTUVWXYZ'' ''abcdefghijklmnopqrstuvwxyz'') c of
        Some l \<Rightarrow> l
      | None \<Rightarrow> c)"

definition ascii :: Builtins where
  "ascii = \<lparr> toLowerCase = map asciiToLowerCaseChar, toUpperCase = map asciiToUpperCaseChar \<rparr>"

text \<open>Case maps that know the full-width letters as well: the capitals U+FF21 to U+FF3A
  are the bytes \<open>EF BC A1\<close> to \<open>EF BC BA\<close>, the small letters U+FF41 to U+FF5A the bytes
  \<open>EF BD 81\<close> to \<open>EF BD 9A\<close>.\<close>

definition fullWidthCapitals :: string where
  "fullWidthCapitals =
     [CHR 0xA1, CHR 0xA2, CHR 0xA3, CHR 0xA4, CHR 0xA5, CHR 0xA6, CHR 0xA7, CHR 0xA8, CHR 0xA9,
      CHR 0xAA, CHR 0xAB, CHR 0xAC, CHR 0xAD, CHR 0xAE, CHR 0xAF, CHR 0xB0, CHR 0xB1, CHR 0xB2,
      CHR 0xB3, CHR 0xB4, CHR 0xB5, CHR 0xB6, CHR 0xB7, CHR 0xB8, CHR 0xB9, CHR 0xBA]"

definition fullWidthSmalls :: string where
  "fullWidthSmalls =
     [CHR 0x81, CHR 0x82, CHR 0x83, CHR 0x84, CHR 0x85, CHR 0x86, CHR 0x87, CHR 0x88, CHR 0x89,
      CHR 0x8A, CHR 0x8B, CHR 0x8C, CHR 0x8D, CHR 0x8E, CHR 0x8F, CHR 0x90, CHR 0x91, CHR 0x92,
      CHR 0x93, CHR 0x94, CHR 0x95, CHR 0x96, CHR 0x97, CHR 0x98, CHR 0x99, CHR 0x9A]"

fun lowerFullWidth :: "string \<Rightarrow> string" where
  "lowerFullWidth (a # b # c # s) =
     (case (if a = CHR 0xEF \<and> b = CHR 0xBC
            then map_of (zip fullWidthCapitals fullWidthSmalls) c else None) of
        Some l \<Rightarrow> CHR 0xEF # CHR 0xBD # l # lowerFullWidth s
      | None \<Rightarrow> asciiToLowerCaseChar a # lowerFullWidth (b # c # s))"
| "lowerFullWidth (a # s) = asciiToLowerCaseChar a # lowerFullWidth s"
| "lowerFullWidth [] = []"

fun upperFullWidth :: "string \<Rightarrow> string" where
  "upperFullWidth (a # b # c # s) =
     (case (if a = CHR 0xEF \<and> b = CHR 0xBD
            then map_of (zip fullWidthSmalls fullWidthCapitals) c else None) of
        Some u \<Rightarrow> CHR 0xEF # CHR 0xBC # u # upperFullWidth s
      | None \<Rightarrow> asciiToUpperCaseChar a # upperFullWidth (b # c # s))"
| "upperFullWidth (a # s) = asciiToUpperCaseChar a # upperFullWidth s"
| "upperFullWidth [] = []"

definition withFullWidth :: Builtins where
  "withFullWidth = \<lparr> toLowerCase = lowerFullWidth, toUpperCase = upperFullWidth \<rparr>"

text \<open>A title in katakana that ends with the full-width capital A, and the full-width
  small a.\<close>

definition katakanaTitle :: string where
  "katakanaTitle =
     [CHR 0xE3, CHR 0x83, CHR 0x97, CHR 0xE3, CHR 0x83, CHR 0xAD, CHR 0xE3, CHR 0x82, CHR 0xB0,
      CHR 0xE3, CHR 0x83, CHR 0xA9, CHR 0xE3, CHR 0x83, CHR 0x9F, CHR 0xE3, CHR 0x83, CHR 0xB3,
      CHR 0xE3, CHR 0x82, CHR 0xB0, CHR 0xEF, CHR 0xBC, CHR 0xA1]"

definition fullWidthSmallA :: string where
  "fullWidthSmallA = [CHR 0xEF, CHR 0xBD, CHR 0x81]"

text \<open>The ideographic space U+3000, the no-break space U+00A0 and the byte order mark
  U+FEFF.\<close>

definition ideographicSpace :: string where
  "ideographicSpace = [CHR 0xE3, CHR 0x80, CHR 0x80]"

definition noBreakSpace :: string where
  "noBreakSpace = [CHR 0xC2, CHR 0xA0]"

definition byteOrderMark :: string where
  "byteOrderMark = [CHR 0xEF, CHR 0xBB, CHR 0xBF]"

text \<open>A decoder for the examples: the text \<open>bad\<close> has a row with too few fields; any
  other text decodes to a good row whose cells are padded with white space of several
  kinds, a row whose identifier is white space only, a row with a missing column and a
  number for a cell, and a row that is no object.\<close>

definition sampleDecoder :: "string \<Rightarrow> ParseResult" where
  "sampleDecoder csv =
     (if csv = ''bad'' then
        \<lparr> data = [JObject [(colId, JString ''CS100'')]],
          errors = [\<lparr> type' = ''FieldMismatch'', code' = ''TooFewFields'',
                      message = ''Too few fields'', row' = Some 0 \<rparr>] \<rparr>
      else
        \<lparr> data =
            [JObject [(colId, JString (byteOrderMark @ ideographicSpace @ ''CS101 '' @ ideographicSpace)),
                      (colName, JString (''Logic  '' @ noBreakSpace)),
                      (colCredit, JString ''2.0''), (colTerm, JString ''A''),
                      (colWhen, JString ''Mon1''), (colExpects, JString ''1''),
                      (colRemark, JString []), (colDescription, JString '' proofs''),
                      (colOrganizer, JString ''N. N.'')],
             JObject [(colId, JString ('' '' @ ideographicSpace @ noBreakSpace)),
                      (colName, JString ''Blank''),
                      (colCredit, JString ''1.0''), (colTerm, JString ''B''),
                      (colWhen, JString ''Tue2''), (colExpects, JString ''2''),
                      (colRemark, JString []), (colDescription, JString []),
                      (colOrganizer, JString [])],
             JObject [(colId, JString ''CS102''), (colName, JNumber 7)],
             JNull],
          errors = [] \<rparr>)"

definition sampleRecord :: "int \<Rightarrow> Course" where
  "sampleRecord yr =
     \<lparr> id' = ''CS101'', name = ''Logic'', credit = ''2.0'', term' = ''A'',
       when' = ''Mon1'', expects = ''1'', remark = [], description = ''proofs'',
       organizer = ''N. N.'', year = yr, key = ''CS101,'' @ numberToString yr \<rparr>"

definition sampleCourse :: "string \<Rightarrow> string \<Rightarrow> int \<Rightarrow> Course" where
  "sampleCourse i n yr =
     \<lparr> id' = i, name = n, credit = ''1.0'', term' = ''B'', when' = ''Tue2'',
       expects = ''2'', remark = [], description = ''Notes on Logic'',
       organizer = ''N. N.'', year = yr, key = i @ '','' @ numberToString yr \<rparr>"

definition sampleState :: State where
  "sampleState =
     \<lparr> idFilter = ''cs'', idFilterMode = IdPrefix, nameFilter = [],
       nameFilterMode = NameContain, yearFilter = {2023, 2024, 2025},
       priorityString = ''logic'', showDescription = False,
       maxVisibleCourseCount = Number 2 \<rparr>"

text \<open>The cap of a field that was emptied, and a cap that was never a number.\<close>

definition emptiedCapState :: State where
  "emptiedCapState = sampleState \<lparr> maxVisibleCourseCount := Null \<rparr>"

definition nanCapState :: State where
  "nanCapState = sampleState \<lparr> maxVisibleCourseCount := NaN \<rparr>"

definition sampleCourses :: "Course list" where
  "sampleCourses =
     [sampleCourse ''CS101'' ''Algebra'' 2023, sampleCourse ''CS101'' ''Logic I'' 2024,
      sampleCourse ''MA200'' ''Analysis'' 2023, sampleCourse ''CS101'' ''Topology'' 2025,
      sampleCourse ''CS102'' ''LOGIC II'' 2023]"

text \<open>Four records with the identifiers \<open>A, A, B, A\<close>.\<close>

definition runSample :: "Course list" where
  "runSample =
     [sampleCourse ''A'' ''one'' 2023, sampleCourse ''A'' ''two'' 2024,
      sampleCourse ''B'' ''three'' 2023, sampleCourse ''A'' ''four'' 2025]"

section \<open>Strings: trimming and prefixes\<close>

lemma stripLeading_none:
  "find (\<lambda>w. w \<noteq> [] \<and> prefix w (stripLeading ws s)) ws = None"
proof (induction ws s rule: stripLeading.induct)
  case (1 ws s)
  show ?case
  proof (cases "find (\<lambda>w. w \<noteq> [] \<and> prefix w s) ws")
    case None
    then show ?thesis by (simp add: stripLeading.simps[of ws s])
  next
    case (Some w)
    then show ?thesis using "1.IH"[OF Some] by (simp add: stripLeading.simps[of ws s])
  qed
qed

lemma stripLeading_suffix: "suffix (stripLeading ws s) s"
proof (induction ws s rule: stripLeading.induct)
  case (1 ws s)
  show ?case
  proof (cases "find (\<lambda>w. w \<noteq> [] \<and> prefix w s) ws")
    case None
    then show ?thesis by (simp add: stripLeading.simps[of ws s])
  next
    case (Some w)
    have "suffix (drop (length w) s) s" by (rule suffix_drop)
    with "1.IH"[OF Some] have "suffix (stripLeading ws (drop (length w) s)) s"
      by (rule suffix_order.trans)
    then show ?thesis using Some by (simp add: stripLeading.simps[of ws s])
  qed
qed

lemma whiteSpace_nonempty: "[] \<notin> set whiteSpace"
  by (simp add: whiteSpace_def)

lemma trimmed_trim: "trimmed (trim s)"
  unfolding trimmed_def
proof (intro ballI conjI)
  fix w assume w: "w \<in> set whiteSpace"
  then have ne: "w \<noteq> []" using whiteSpace_nonempty by auto
  define t where "t = stripLeading whiteSpace s"
  define r where "r = stripLeading (map rev whiteSpace) (rev t)"
  have u: "trim s = rev r" by (simp add: trim_def r_def t_def)
  have "suffix r (rev t)" unfolding r_def by (rule stripLeading_suffix)
  then have pre: "prefix (rev r) t" by (simp add: suffix_to_prefix)
  have "find (\<lambda>w. w \<noteq> [] \<and> prefix w t) whiteSpace = None"
    unfolding t_def by (rule stripLeading_none)
  with w ne have "\<not> prefix w t" by (auto simp: find_None_iff)
  with pre show "\<not> prefix w (trim s)" unfolding u by (meson prefix_order.trans)
  have "find (\<lambda>w. w \<noteq> [] \<and> prefix w r) (map rev whiteSpace) = None"
    unfolding r_def by (rule stripLeading_none)
  moreover have "rev w \<in> set (map rev whiteSpace)" using w by simp
  ultimately have "\<not> prefix (rev w) r" using ne by (auto simp: find_None_iff)
  then show "\<not> suffix w (trim s)" unfolding u by (simp add: suffix_to_prefix)
qed

text \<open>A trimmed string is left as it is.\<close>

lemma stripLeading_id:
  "find (\<lambda>w. w \<noteq> [] \<and> prefix w s) ws = None \<Longrightarrow> stripLeading ws s = s"
  by (simp add: stripLeading.simps[of ws s])

lemma trim_trimmed:
  assumes "trimmed s"
  shows "trim s = s"
proof -
  have 1: "find (\<lambda>w. w \<noteq> [] \<and> prefix w s) whiteSpace = None"
    using assms by (auto simp: find_None_iff trimmed_def)
  have 2: "find (\<lambda>w. w \<noteq> [] \<and> prefix w (rev s)) (map rev whiteSpace) = None"
    using assms by (auto simp: find_None_iff trimmed_def suffix_to_prefix)
  show ?thesis by (simp add: trim_def stripLeading_id[OF 1] stripLeading_id[OF 2])
qed

lemma startsWith_prefix: "startsWith s p = prefix p s"
  by (induction s p rule: startsWith.induct) auto

lemma includes_sublist: "includes' s p = sublist p s"
  by (induction s) (simp_all add: startsWith_prefix sublist_Cons_right)

text \<open>White space of the three kinds of the examples is removed from both ends.\<close>

lemma trim_sample:
  "trim (byteOrderMark @ ideographicSpace @ ''CS101 '' @ ideographicSpace) = ''CS101'' \<and>
   trim ('' '' @ ideographicSpace @ noBreakSpace) = []"
  by code_simp

section \<open>The parser\<close>

lemma rowIsWellTyped_iff:
  "rowIsWellTyped row =
     (\<forall>k \<in> set requiredColumns. hasProperty k row \<and> typeof (getProperty row k) = ''string'')"
  by (cases row) (auto simp: rowIsWellTyped_def requiredColumns_def)

lemma rowSkipped_iff:
  "rowSkipped row = (\<not> rowIsWellTyped row \<or> trim (stringOf (getProperty row colId)) = [])"
  unfolding rowSkipped_def rowIsWellTyped_iff by blast

lemma parseRows_eq:
  "parseRows yr rows courses =
     courses @ map (recordOfRow yr) (filter (\<lambda>row. \<not> rowSkipped row) rows)"
proof (induction rows arbitrary: courses)
  case Nil
  show ?case by simp
next
  case (Cons row rows)
  show ?case
    by (simp add: Cons.IH rowSkipped_iff Let_def recordOfRow_def)
qed

lemma recordOfRow_fields: "\<forall>f \<in> set (fieldsOf (recordOfRow yr row)). trimmed f"
  by (simp add: fieldsOf_def recordOfRow_def trimmed_trim)

lemma sampleDecoder_parse:
  "parseCoursesCsv sampleDecoder ''2023.csv'' 2023 = Some [sampleRecord 2023]"
  by code_simp

lemma sampleDecoder_bad: "parseCoursesCsv sampleDecoder ''bad'' 2023 = None"
  by code_simp

text \<open>
  Claim C4. When \<open>parseCoursesCsv\<close> succeeds on a text whose decoding has \<open>N\<close> rows, it
  returns at most \<open>N\<close> records; every record has a non-empty identifier, trimmed fields,
  the year of the call, and the key \<open>identifier,year\<close>. The records are those of the rows
  that are not skipped, in the order of the rows: a row that misses a required column,
  holds a cell that is no string, or has an identifier trimming to the empty string
  leaves no record and no error.
\<close>

theorem parseCoursesCsv_rows:
  assumes "parseCoursesCsv parse csv yr = Some cs"
  shows "length cs \<le> length (data (parse csv)) \<and>
         (\<forall>c \<in> set cs.
            id' c \<noteq> [] \<and> (\<forall>f \<in> set (fieldsOf c). trimmed f) \<and>
            year c = yr \<and> key c = id' c @ '','' @ numberToString yr) \<and>
         cs = map (recordOfRow yr) (filter (\<lambda>row. \<not> rowSkipped row) (data (parse csv)))"
proof -
  let ?rows = "data (parse csv)"
  from assms have "cs = parseRows yr ?rows []"
    by (simp add: parseCoursesCsv_def Let_def split: if_splits)
  then have eq: "cs = map (recordOfRow yr) (filter (\<lambda>row. \<not> rowSkipped row) ?rows)"
    by (simp add: parseRows_eq)
  have len: "length cs \<le> length ?rows"
    unfolding eq by simp
  have each: "id' c \<noteq> [] \<and> (\<forall>f \<in> set (fieldsOf c). trimmed f) \<and>
            year c = yr \<and> key c = id' c @ '','' @ numberToString yr" if "c \<in> set cs" for c
  proof -
    from that eq obtain row where row: "\<not> rowSkipped row" and c: "c = recordOfRow yr row"
      by auto
    from row have "trim (stringOf (getProperty row colId)) \<noteq> []"
      by (simp add: rowSkipped_def)
    then have "id' c \<noteq> []" by (simp add: c recordOfRow_def)
    moreover have "\<forall>f \<in> set (fieldsOf c). trimmed f"
      unfolding c by (rule recordOfRow_fields)
    moreover have "year c = yr" "key c = id' c @ '','' @ numberToString yr"
      by (simp_all add: c recordOfRow_def)
    ultimately show ?thesis by simp
  qed
  from len each eq show ?thesis by blast
qed

theorem parseCoursesCsv_rows_witness:
  "parseCoursesCsv sampleDecoder ''2023.csv'' 2023 = Some [sampleRecord 2023] \<and>
   length [sampleRecord 2023] \<le> length (data (sampleDecoder ''2023.csv'')) \<and>
   id' (sampleRecord 2023) = ''CS101'' \<and>
   list_all trimmed (fieldsOf (sampleRecord 2023)) \<and>
   year (sampleRecord 2023) = 2023 \<and>
   key (sampleRecord 2023) = ''CS101,2023'' \<and>
   [sampleRecord 2023] =
     map (recordOfRow 2023) (filter (\<lambda>row. \<not> rowSkipped row) (data (sampleDecoder ''2023.csv'')))"
proof -
  note T = parseCoursesCsv_rows [OF sampleDecoder_parse]
  have i: "id' (sampleRecord 2023) = ''CS101''" by (simp add: sampleRecord_def)
  have k: "id' (sampleRecord 2023) @ '','' @ numberToString 2023 = ''CS101,2023''"
    by code_simp
  from T i k show ?thesis using sampleDecoder_parse by (simp add: list_all_iff)
qed

text \<open>
  Claim C5. For every text and year, \<open>parseCoursesCsv\<close> returns \<open>undefined\<close>, and so no
  record at all, exactly when the decoder reports at least one error; otherwise it
  returns the sequence of records built from the decoded rows.
\<close>

theorem parseCoursesCsv_fails_iff_decoder_errors:
  "(parseCoursesCsv parse csv yr = None) = (errors (parse csv) \<noteq> []) \<and>
   (errors (parse csv) = [] \<longrightarrow>
      parseCoursesCsv parse csv yr = Some (parseRows yr (data (parse csv)) []))"
  by (simp add: parseCoursesCsv_def Let_def)

theorem parseCoursesCsv_fails_iff_decoder_errors_witness:
  "errors (sampleDecoder ''bad'') \<noteq> [] \<and>
   parseCoursesCsv sampleDecoder ''bad'' 2023 = None \<and>
   errors (sampleDecoder ''2023.csv'') = [] \<and>
   parseCoursesCsv sampleDecoder ''2023.csv'' 2023
     = Some (parseRows 2023 (data (sampleDecoder ''2023.csv'')) [])"
proof -
  have b: "errors (sampleDecoder ''bad'') \<noteq> []" by (simp add: sampleDecoder_def)
  have g: "errors (sampleDecoder ''2023.csv'') = []" by (simp add: sampleDecoder_def)
  from b g
    parseCoursesCsv_fails_iff_decoder_errors [of sampleDecoder "''bad''" 2023]
    parseCoursesCsv_fails_iff_decoder_errors [of sampleDecoder "''2023.csv''" 2023]
  show ?thesis by blast
qed

section \<open>The filter\<close>

lemma visibleLoop_cap:
  "length vis \<le> k \<Longrightarrow>
   visibleLoop p (Number (int k)) cs vis =
     (if k < length vis + length (filter p cs)
      then (vis @ take (k - length vis) (filter p cs), True)
      else (vis @ filter p cs, False))"
proof (induction cs arbitrary: vis)
  case Nil
  then show ?case by simp
next
  case (Cons c cs)
  show ?case
  proof (cases "p c")
    case False
    then show ?thesis using Cons by simp
  next
    case True
    show ?thesis
    proof (cases "length vis = k")
      case True
      with \<open>p c\<close> show ?thesis by (simp add: numberAdd_def)
    next
      case False
      with Cons.prems have le: "length (vis @ [c]) \<le> k" by simp
      from False Cons.prems have "k - length vis = Suc (k - length (vis @ [c]))" by simp
      with \<open>p c\<close> False Cons.IH[OF le] show ?thesis by (simp add: Let_def numberAdd_def)
    qed
  qed
qed

lemma visibleLoop_NaN: "visibleLoop p NaN cs vis = (vis @ filter p cs, False)"
  by (induction cs arbitrary: vis) (simp_all add: Let_def numberAdd_def)

text \<open>\<open>null + 1\<close> is \<open>0 + 1\<close>: the cap \<open>null\<close> is the cap zero.\<close>

lemma visibleLoop_Null: "visibleLoop p Null cs vis = visibleLoop p (Number 0) cs vis"
  by (induction cs arbitrary: vis) (simp_all add: Let_def numberAdd_def)

lemma visibleLoop_zero:
  "visibleLoop p (Number 0) cs [] = ([], filter p cs \<noteq> [])"
  using visibleLoop_cap[of "[]" 0 p cs] by simp

text \<open>The cap has no part in the test of a record.\<close>

lemma passesFilters_cap:
  "passesFilters js (st \<lparr> maxVisibleCourseCount := v \<rparr>) = passesFilters js st"
  by (rule ext) (simp add: passesFilters_def idMatches_def nameMatches_def yearMatches_def)

lemma sampleCourses_passing:
  "filter (passesFilters ascii sampleState) sampleCourses =
     [sampleCourse ''CS101'' ''Algebra'' 2023, sampleCourse ''CS101'' ''Logic I'' 2024,
      sampleCourse ''CS101'' ''Topology'' 2025, sampleCourse ''CS102'' ''LOGIC II'' 2023]"
  by code_simp

lemma sampleCourses_take3_passing:
  "filter (passesFilters ascii sampleState) (take 3 sampleCourses) =
     [sampleCourse ''CS101'' ''Algebra'' 2023, sampleCourse ''CS101'' ''Logic I'' 2024]"
  by code_simp

text \<open>Caps that are no integers: with the cap \<open>1.5\<close> the sum \<open>2.5\<close> is no length, and the
  filter keeps every record that passes; with the cap \<open>1 - 2\<^sup>-\<^sup>5\<^sup>3\<close> the sum is rounded
  to \<open>2\<close>, and the filter keeps one record.\<close>

lemma sampleCourses_fraction_caps:
  "numberAdd (Fraction 3 1) (Number 1) = Fraction 5 1 \<and>
   fst (filterCourses ascii (sampleState \<lparr> maxVisibleCourseCount := Fraction 3 1 \<rparr>)
        sampleCourses) = filter (passesFilters ascii sampleState) sampleCourses \<and>
   numberAdd (Fraction 9007199254740991 53) (Number 1) = Number 2 \<and>
   filterCourses ascii (sampleState \<lparr> maxVisibleCourseCount := Fraction 9007199254740991 53 \<rparr>)
        sampleCourses = ([sampleCourse ''CS101'' ''Algebra'' 2023], True) \<and>
   numberAdd Infinity (Number 1) = Infinity \<and> numberAdd Null (Number 1) = Number 1"
  by code_simp

text \<open>
  Claim C1. For a cap that is a positive integer \<open>k\<close>: when at least \<open>k + 1\<close> records
  pass the filter, the result is the first \<open>k\<close> of them and the truncation flag is set;
  when exactly \<open>k\<close> pass, the result is these \<open>k\<close> and the flag is not set. The loop is
  left at the record that passes as number \<open>k + 1\<close>: that record is not in the result,
  and what follows it in the input has no part in the result.
\<close>

theorem filterCourses_cap:
  assumes "0 < k" and "maxVisibleCourseCount st = Number k"
  shows "(int (length (filter (passesFilters js st) courses)) \<ge> k + 1 \<longrightarrow>
            filterCourses js st courses = (take (nat k) (filter (passesFilters js st) courses), True) \<and>
            int (length (fst (filterCourses js st courses))) = k) \<and>
         (int (length (filter (passesFilters js st) courses)) = k \<longrightarrow>
            filterCourses js st courses = (filter (passesFilters js st) courses, False) \<and>
            int (length (fst (filterCourses js st courses))) = k) \<and>
         (\<forall>pre c post. courses = pre @ c # post \<and> passesFilters js st c \<and>
            int (length (filter (passesFilters js st) pre)) = k \<longrightarrow>
            filterCourses js st courses = (filter (passesFilters js st) pre, True) \<and>
            filterCourses js st (pre @ [c]) = filterCourses js st courses)"
proof -
  define n where "n = nat k"
  with assms have k: "k = int n" by simp
  have eq: "filterCourses js st cs =
      (if n < length (filter (passesFilters js st) cs)
       then (take n (filter (passesFilters js st) cs), True)
       else (filter (passesFilters js st) cs, False))" for cs
    using visibleLoop_cap[of "[]" n "passesFilters js st" cs]
    by (simp add: filterCourses_def assms(2) k)
  show ?thesis
    by (auto simp: eq k)
qed

theorem filterCourses_cap_witness:
  "(0::int) < 2 \<and> maxVisibleCourseCount sampleState = Number 2 \<and>
   filterCourses ascii sampleState sampleCourses =
     ([sampleCourse ''CS101'' ''Algebra'' 2023, sampleCourse ''CS101'' ''Logic I'' 2024], True) \<and>
   filterCourses ascii sampleState (take 3 sampleCourses) =
     ([sampleCourse ''CS101'' ''Algebra'' 2023, sampleCourse ''CS101'' ''Logic I'' 2024], False) \<and>
   filterCourses ascii sampleState (take 4 sampleCourses) = filterCourses ascii sampleState sampleCourses"
proof -
  have k: "(0::int) < 2" by simp
  have m: "maxVisibleCourseCount sampleState = Number 2" by (simp add: sampleState_def)
  have a: "filterCourses ascii sampleState sampleCourses =
     ([sampleCourse ''CS101'' ''Algebra'' 2023, sampleCourse ''CS101'' ''Logic I'' 2024], True)"
    using filterCourses_cap [OF k m, of ascii sampleCourses] by (simp add: sampleCourses_passing)
  have b: "filterCourses ascii sampleState (take 3 sampleCourses) =
     ([sampleCourse ''CS101'' ''Algebra'' 2023, sampleCourse ''CS101'' ''Logic I'' 2024], False)"
    using filterCourses_cap [OF k m, of ascii "take 3 sampleCourses"]
    by (simp add: sampleCourses_take3_passing)
  have s: "sampleCourses = take 3 sampleCourses @ sampleCourse ''CS101'' ''Topology'' 2025
             # [sampleCourse ''CS102'' ''LOGIC II'' 2023]"
    by (simp add: sampleCourses_def)
  have p: "passesFilters ascii sampleState (sampleCourse ''CS101'' ''Topology'' 2025)"
    by code_simp
  have t: "take 4 sampleCourses = take 3 sampleCourses @ [sampleCourse ''CS101'' ''Topology'' 2025]"
    by (simp add: sampleCourses_def)
  have l: "int (length (filter (passesFilters ascii sampleState) (take 3 sampleCourses))) = 2"
    by (simp add: sampleCourses_take3_passing)
  from filterCourses_cap [OF k m, of ascii sampleCourses]
  have "\<forall>pre c post. sampleCourses = pre @ c # post \<and> passesFilters ascii sampleState c \<and>
            int (length (filter (passesFilters ascii sampleState) pre)) = 2 \<longrightarrow>
            filterCourses ascii sampleState sampleCourses = (filter (passesFilters ascii sampleState) pre, True) \<and>
            filterCourses ascii sampleState (pre @ [c]) = filterCourses ascii sampleState sampleCourses"
    by blast
  with s p l have "filterCourses ascii sampleState
      (take 3 sampleCourses @ [sampleCourse ''CS101'' ''Topology'' 2025])
      = filterCourses ascii sampleState sampleCourses"
    by blast
  then have c: "filterCourses ascii sampleState (take 4 sampleCourses) = filterCourses ascii sampleState sampleCourses"
    by (simp only: t)
  from k m a b c show ?thesis by blast
qed

text \<open>
  Claim C9 says that a cap that is no number leaves the filter without a cap: every
  record that passes is in the result and the truncation flag is not set. That is so
  for the cap \<open>NaN\<close>. But the cap is bound to a number field, which hands \<open>null\<close> when
  it is emptied or its text is no number, and \<open>null + 1\<close> is \<open>1\<close>: the first record
  that passes is pushed and popped, the result is empty and the flag is set.
\<close>

theorem filterCourses_emptied_cap_counterexample:
  "maxVisibleCourseCount emptiedCapState = Null \<and>
   filter (passesFilters ascii emptiedCapState) sampleCourses =
     [sampleCourse ''CS101'' ''Algebra'' 2023, sampleCourse ''CS101'' ''Logic I'' 2024,
      sampleCourse ''CS101'' ''Topology'' 2025, sampleCourse ''CS102'' ''LOGIC II'' 2023] \<and>
   filterCourses ascii emptiedCapState sampleCourses = ([], True) \<and>
   filterCourses ascii emptiedCapState sampleCourses \<noteq>
     (filter (passesFilters ascii emptiedCapState) sampleCourses, False)"
  by code_simp

text \<open>
  Claim C9, amended. For no cap does the filter throw: it is a total function of the
  state and the records. When the cap is \<open>NaN\<close>, every record that passes is in the
  result and the truncation flag is not set. When the cap is \<open>null\<close>, which is what the
  cap field hands for an empty or non-numeric text, the result is empty, and the
  truncation flag is set exactly when some record passes.
\<close>

theorem filterCourses_non_numeric_cap:
  "(maxVisibleCourseCount st = NaN \<longrightarrow>
      filterCourses js st courses = (filter (passesFilters js st) courses, False)) \<and>
   (maxVisibleCourseCount st = Null \<longrightarrow>
      filterCourses js st courses = ([], filter (passesFilters js st) courses \<noteq> []))"
  by (simp add: filterCourses_def visibleLoop_NaN visibleLoop_Null visibleLoop_zero)

theorem filterCourses_non_numeric_cap_witness:
  "maxVisibleCourseCount nanCapState = NaN \<and>
   filterCourses ascii nanCapState sampleCourses =
     ([sampleCourse ''CS101'' ''Algebra'' 2023, sampleCourse ''CS101'' ''Logic I'' 2024,
       sampleCourse ''CS101'' ''Topology'' 2025, sampleCourse ''CS102'' ''LOGIC II'' 2023], False) \<and>
   maxVisibleCourseCount emptiedCapState = Null \<and>
   filterCourses ascii emptiedCapState sampleCourses = ([], True) \<and>
   filterCourses ascii emptiedCapState [sampleCourse ''MA200'' ''Analysis'' 2023] = ([], False)"
proof -
  have n: "maxVisibleCourseCount nanCapState = NaN"
    and e: "maxVisibleCourseCount emptiedCapState = Null"
    by (simp_all add: nanCapState_def emptiedCapState_def)
  have pn: "filter (passesFilters ascii nanCapState) sampleCourses =
     [sampleCourse ''CS101'' ''Algebra'' 2023, sampleCourse ''CS101'' ''Logic I'' 2024,
      sampleCourse ''CS101'' ''Topology'' 2025, sampleCourse ''CS102'' ''LOGIC II'' 2023]"
    by (simp add: nanCapState_def passesFilters_cap sampleCourses_passing)
  have pe: "filter (passesFilters ascii emptiedCapState) sampleCourses =
     [sampleCourse ''CS101'' ''Algebra'' 2023, sampleCourse ''CS101'' ''Logic I'' 2024,
      sampleCourse ''CS101'' ''Topology'' 2025, sampleCourse ''CS102'' ''LOGIC II'' 2023]"
    by (simp add: emptiedCapState_def passesFilters_cap sampleCourses_passing)
  have pm: "filter (passesFilters ascii emptiedCapState) [sampleCourse ''MA200'' ''Analysis'' 2023] = []"
    by code_simp
  from filterCourses_non_numeric_cap [of nanCapState ascii sampleCourses] n pn
  have a: "filterCourses ascii nanCapState sampleCourses =
     ([sampleCourse ''CS101'' ''Algebra'' 2023, sampleCourse ''CS101'' ''Logic I'' 2024,
       sampleCourse ''CS101'' ''Topology'' 2025, sampleCourse ''CS102'' ''LOGIC II'' 2023], False)"
    by simp
  from filterCourses_non_numeric_cap [of emptiedCapState ascii sampleCourses] e pe
  have b: "filterCourses ascii emptiedCapState sampleCourses = ([], True)"
    by simp
  from filterCourses_non_numeric_cap
    [of emptiedCapState ascii "[sampleCourse ''MA200'' ''Analysis'' 2023]"] e pm
  have c: "filterCourses ascii emptiedCapState [sampleCourse ''MA200'' ''Analysis'' 2023] = ([], False)"
    by simp
  from n e a b c show ?thesis by blast
qed

section \<open>The identifier filter and case\<close>

text \<open>
  Claim C3 says that a record passes the identifier filter exactly when the filter text
  is a prefix (in prefix mode) or a part (in contains mode) of the identifier, case
  ignored. Two pages raise the filter text to upper case and compare it with the
  identifier as it is stored: an identifier with a lower-case letter is not matched by
  its own beginning. The first page compares with the filter text as typed: an
  identifier in upper case is not matched by its beginning typed in lower case.
\<close>

theorem idMatches_ignoring_case_counterexample:
  "idFilterMode sampleState = IdPrefix \<and>
   prefixIgnoringCase ascii (idFilter sampleState) (id' (sampleCourse ''cs101'' ''Logic'' 2023)) \<and>
   \<not> idMatches ascii sampleState (sampleCourse ''cs101'' ''Logic'' 2023) \<and>
   idFilterMode (sampleState \<lparr> idFilterMode := IdContain \<rparr>) = IdContain \<and>
   partIgnoringCase ascii (idFilter (sampleState \<lparr> idFilterMode := IdContain \<rparr>))
     (id' (sampleCourse ''cs101'' ''Logic'' 2023)) \<and>
   \<not> idMatches ascii (sampleState \<lparr> idFilterMode := IdContain \<rparr>)
       (sampleCourse ''cs101'' ''Logic'' 2023) \<and>
   prefixIgnoringCase ascii (idFilter sampleState) (id' (sampleCourse ''CS101'' ''Logic'' 2023)) \<and>
   \<not> idMatchesAsTyped sampleState (sampleCourse ''CS101'' ''Logic'' 2023)"
  by code_simp

text \<open>
  Claim C3, amended. On the two pages that raise the filter text to upper case, a
  record passes the identifier filter exactly when the raised filter text is a prefix
  (prefix mode) or a part (contains mode) of the identifier as stored; for a record
  whose identifier is its own upper case, this is the match in which both sides are
  raised to upper case. On the first page a record passes exactly when the filter text
  as typed is a prefix or a part of the identifier as stored.
\<close>

theorem idMatches_upper_cased_filter:
  "idMatches js st c =
     (if idFilterMode st = IdPrefix then prefix (toUpperCase js (idFilter st)) (id' c)
      else sublist (toUpperCase js (idFilter st)) (id' c)) \<and>
   (toUpperCase js (id' c) = id' c \<longrightarrow>
      idMatches js st c =
        (if idFilterMode st = IdPrefix then prefixIgnoringCase js (idFilter st) (id' c)
         else partIgnoringCase js (idFilter st) (id' c))) \<and>
   idMatchesAsTyped st c =
     (if idFilterMode st = IdPrefix then prefix (idFilter st) (id' c)
      else sublist (idFilter st) (id' c))"
  by (simp add: idMatches_def idMatchesAsTyped_def Let_def startsWith_prefix includes_sublist
      prefixIgnoringCase_def partIgnoringCase_def)

theorem idMatches_upper_cased_filter_witness:
  "toUpperCase ascii (id' (sampleCourse ''CS101'' ''Logic'' 2023))
     = id' (sampleCourse ''CS101'' ''Logic'' 2023) \<and>
   idFilterMode sampleState = IdPrefix \<and>
   idMatches ascii sampleState (sampleCourse ''CS101'' ''Logic'' 2023) \<and>
   prefixIgnoringCase ascii (idFilter sampleState) (id' (sampleCourse ''CS101'' ''Logic'' 2023)) \<and>
   prefix (toUpperCase ascii (idFilter sampleState)) (id' (sampleCourse ''CS101'' ''Logic'' 2023)) \<and>
   prefix (idFilter sampleState) (id' (sampleCourse ''cs101'' ''Logic'' 2023)) \<and>
   idMatchesAsTyped sampleState (sampleCourse ''cs101'' ''Logic'' 2023)"
proof -
  have u: "toUpperCase ascii (id' (sampleCourse ''CS101'' ''Logic'' 2023))
     = id' (sampleCourse ''CS101'' ''Logic'' 2023)"
    by code_simp
  have m: "idFilterMode sampleState = IdPrefix" by (simp add: sampleState_def)
  have p: "prefix (toUpperCase ascii (idFilter sampleState))
             (id' (sampleCourse ''CS101'' ''Logic'' 2023))"
    and q: "prefix (idFilter sampleState) (id' (sampleCourse ''cs101'' ''Logic'' 2023))"
    by code_simp+
  have i: "(if idFilterMode sampleState = IdPrefix then A else B) = A" for A B :: bool
    by (simp add: m)
  from idMatches_upper_cased_filter [of ascii sampleState "sampleCourse ''CS101'' ''Logic'' 2023"]
  have a: "idMatches ascii sampleState (sampleCourse ''CS101'' ''Logic'' 2023)"
    and b: "prefixIgnoringCase ascii (idFilter sampleState)
              (id' (sampleCourse ''CS101'' ''Logic'' 2023))"
    unfolding i using u p by blast+
  from idMatches_upper_cased_filter [of ascii sampleState "sampleCourse ''cs101'' ''Logic'' 2023"]
  have c: "idMatchesAsTyped sampleState (sampleCourse ''cs101'' ''Logic'' 2023)"
    unfolding i using q by blast
  from u m a b p q c show ?thesis by blast
qed

section \<open>The ranking\<close>

lemma courseContainsString_matchesQuery:
  "courseContainsString js c q d = matchesQuery js q d c"
  by (auto simp: courseContainsString_def matchesQuery_def containsIgnoringCase_def
      includes_sublist Let_def)

lemma length_insertSorted: "length (insertSorted cmp x xs) = Suc (length xs)"
  by (induction xs) simp_all

lemma length_arraySort: "length (arraySort cmp xs) = length xs"
  by (induction xs) (simp_all add: length_insertSorted)

text \<open>Overwriting the first \<open>n\<close> places of an array from another of the same length.\<close>

lemma fold_overwrite:
  "length ps = length ts \<Longrightarrow> n \<le> length ts \<Longrightarrow>
   fold (\<lambda>i ts'. ts'[i := f (ps ! i)]) [0 ..< n] ts = map f (take n ps) @ drop n ts"
proof (induction n)
  case 0
  show ?case by simp
next
  case (Suc n)
  then have n: "n < length ts" "n < length ps" by simp_all
  have "(map f (take n ps) @ drop n ts)[n := f (ps ! n)]
        = map f (take n ps) @ (drop n ts)[0 := f (ps ! n)]"
    using n by (simp add: list_update_append)
  also have "(drop n ts)[0 := f (ps ! n)] = f (ps ! n) # drop (Suc n) ts"
    using n by (simp add: Cons_nth_drop_Suc[symmetric])
  finally show ?case using Suc n by (simp add: take_Suc_conv_app_nth)
qed

lemma sortByKeyCached_eq:
  "sortByKeyCached ts getKey =
     map snd (arraySort (\<lambda>a b. fst a - fst b) (map (\<lambda>t. (getKey t, t)) ts))"
  using fold_overwrite
    [of "arraySort (\<lambda>a b. fst a - fst b) (map (\<lambda>t. (getKey t, t)) ts)" ts "length ts" snd]
  by (simp add: sortByKeyCached_def Let_def length_arraySort)

lemma insertSorted_first:
  fixes x :: "int \<times> 'a"
  shows "\<forall>y \<in> set ys. fst x \<le> fst y \<Longrightarrow> insertSorted (\<lambda>a b. fst a - fst b) x ys = x # ys"
  by (cases ys) simp_all

lemma insertSorted_after:
  fixes x :: "int \<times> 'a"
  shows "\<forall>y \<in> set ps. fst y < fst x \<Longrightarrow> \<forall>y \<in> set qs. fst x \<le> fst y \<Longrightarrow>
   insertSorted (\<lambda>a b. fst a - fst b) x (ps @ qs) = ps @ x # qs"
  by (induction ps) (simp_all add: insertSorted_first)

lemma arraySort_two_keys:
  fixes xs :: "(int \<times> 'a) list"
  assumes "\<forall>x \<in> set xs. fst x = - 1 \<or> fst x = 0"
  shows "arraySort (\<lambda>a b. fst a - fst b) xs
         = filter (\<lambda>x. fst x = - 1) xs @ filter (\<lambda>x. fst x = 0) xs"
  using assms
proof (induction xs)
  case Nil
  show ?case by simp
next
  case (Cons x xs)
  then have IH: "arraySort (\<lambda>a b. fst a - fst b) xs
         = filter (\<lambda>x. fst x = - 1) xs @ filter (\<lambda>x. fst x = 0) xs" by simp
  from Cons.prems have "fst x = - 1 \<or> fst x = 0" by simp
  then show ?case
  proof
    assume x: "fst x = - 1"
    have "insertSorted (\<lambda>a b. fst a - fst b) x (arraySort (\<lambda>a b. fst a - fst b) xs)
          = x # arraySort (\<lambda>a b. fst a - fst b) xs"
      by (rule insertSorted_first) (use Cons.prems x IH in auto)
    then show ?thesis using x IH by simp
  next
    assume x: "fst x = 0"
    have "insertSorted (\<lambda>a b. fst a - fst b) x
            (filter (\<lambda>x. fst x = - 1) xs @ filter (\<lambda>x. fst x = 0) xs)
          = filter (\<lambda>x. fst x = - 1) xs @ x # filter (\<lambda>x. fst x = 0) xs"
      by (rule insertSorted_after) (use x in auto)
    then show ?thesis using x IH by simp
  qed
qed

lemma sortByKeyCached_partition:
  "sortByKeyCached ts (\<lambda>t. - (if P t then 1 else 0)) = filter P ts @ filter (\<lambda>t. \<not> P t) ts"
proof -
  let ?k = "\<lambda>t. - (if P t then 1 else 0 :: int)"
  let ?ps = "map (\<lambda>t. (?k t, t)) ts"
  have "arraySort (\<lambda>a b. fst a - fst b) ?ps
        = filter (\<lambda>x. fst x = - 1) ?ps @ filter (\<lambda>x. fst x = 0) ?ps"
    by (rule arraySort_two_keys) auto
  moreover have "map snd (filter (\<lambda>x. fst x = - 1) ?ps) = filter P ts"
    by (induction ts) simp_all
  moreover have "map snd (filter (\<lambda>x. fst x = 0) ?ps) = filter (\<lambda>t. \<not> P t) ts"
    by (induction ts) simp_all
  ultimately show ?thesis by (simp add: sortByKeyCached_eq)
qed

lemma countPrioritized_partition:
  "\<forall>c \<in> set ps. P c \<Longrightarrow> \<forall>c \<in> set qs. \<not> P c \<Longrightarrow>
   countPrioritized P (ps @ qs) n = n + length ps"
proof (induction ps arbitrary: n)
  case Nil
  then show ?case by (cases qs) simp_all
next
  case (Cons p ps)
  then show ?case by simp
qed

lemma sampleCourses_matching:
  "filter (matchesQuery ascii ''logic'' False) sampleCourses =
     [sampleCourse ''CS101'' ''Logic I'' 2024, sampleCourse ''CS102'' ''LOGIC II'' 2023]"
  by code_simp

lemma fullWidth_matching:
  "matchesQuery withFullWidth fullWidthSmallA False (sampleCourse ''GB101'' katakanaTitle 2023) \<and>
   \<not> matchesQuery withFullWidth fullWidthSmallA False (sampleCourse ''CS101'' ''Algebra'' 2023)"
  by code_simp

lemma sampleCourses_not_matching:
  "filter (\<lambda>c. \<not> matchesQuery ascii ''logic'' False c) sampleCourses =
     [sampleCourse ''CS101'' ''Algebra'' 2023, sampleCourse ''MA200'' ''Analysis'' 2023,
      sampleCourse ''CS101'' ''Topology'' 2025]"
  by code_simp

text \<open>
  Claim C2. For a query that is not empty, the ranking returns the records that match
  the query, in the order they had, followed by the records that do not match, in the
  order they had; the count it returns is the number of matching records. A record
  matches when the query is contained, case ignored, in one of identifier, title, credit
  value, term, schedule, expected year, remark and organizer, or in the description when
  the description is included. Case is ignored by \<open>toLowerCase\<close> on both sides, for
  every letter that it maps: the theorem holds for every pair of case maps.
\<close>

theorem prioritize_stable_partition:
  assumes "query \<noteq> []"
  shows "prioritize js query includeDescriptionField records =
           (filter (matchesQuery js query includeDescriptionField) records @
            filter (\<lambda>c. \<not> matchesQuery js query includeDescriptionField c) records,
            Some (length (filter (matchesQuery js query includeDescriptionField) records)))"
proof -
  let ?P = "matchesQuery js query includeDescriptionField"
  have "countPrioritized ?P (filter ?P records @ filter (\<lambda>c. \<not> ?P c) records) 0
        = length (filter ?P records)"
    by (simp add: countPrioritized_partition)
  then show ?thesis
    using assms
    by (simp add: prioritize_def Let_def courseContainsString_matchesQuery
        sortByKeyCached_partition)
qed

theorem prioritize_stable_partition_witness:
  "''logic'' \<noteq> [] \<and>
   prioritize ascii ''logic'' False sampleCourses =
     ([sampleCourse ''CS101'' ''Logic I'' 2024, sampleCourse ''CS102'' ''LOGIC II'' 2023,
       sampleCourse ''CS101'' ''Algebra'' 2023, sampleCourse ''MA200'' ''Analysis'' 2023,
       sampleCourse ''CS101'' ''Topology'' 2025], Some 2) \<and>
   fullWidthSmallA \<noteq> [] \<and>
   prioritize withFullWidth fullWidthSmallA False
       [sampleCourse ''CS101'' ''Algebra'' 2023, sampleCourse ''GB101'' katakanaTitle 2023] =
     ([sampleCourse ''GB101'' katakanaTitle 2023, sampleCourse ''CS101'' ''Algebra'' 2023],
      Some 1)"
proof -
  have q: "''logic'' \<noteq> []" by simp
  from q prioritize_stable_partition [OF q, of ascii False sampleCourses]
  have a: "prioritize ascii ''logic'' False sampleCourses =
     ([sampleCourse ''CS101'' ''Logic I'' 2024, sampleCourse ''CS102'' ''LOGIC II'' 2023,
       sampleCourse ''CS101'' ''Algebra'' 2023, sampleCourse ''MA200'' ''Analysis'' 2023,
       sampleCourse ''CS101'' ''Topology'' 2025], Some 2)"
    by (simp add: sampleCourses_matching sampleCourses_not_matching)
  have f: "fullWidthSmallA \<noteq> []" by (simp add: fullWidthSmallA_def)
  from prioritize_stable_partition [OF f, of withFullWidth False
      "[sampleCourse ''CS101'' ''Algebra'' 2023, sampleCourse ''GB101'' katakanaTitle 2023]"]
  have b: "prioritize withFullWidth fullWidthSmallA False
       [sampleCourse ''CS101'' ''Algebra'' 2023, sampleCourse ''GB101'' katakanaTitle 2023] =
     ([sampleCourse ''GB101'' katakanaTitle 2023, sampleCourse ''CS101'' ''Algebra'' 2023],
      Some 1)"
    by (simp add: fullWidth_matching)
  from q a f b show ?thesis by blast
qed

text \<open>
  Claim C8. With the empty query the ranking returns its input as it is, and the count
  is \<open>undefined\<close>, which is not the count zero.
\<close>

theorem prioritize_empty_query:
  "prioritize js [] includeDescriptionField records = (records, None) \<and>
   snd (prioritize js [] includeDescriptionField records) \<noteq> Some 0"
  by (simp add: prioritize_def)

theorem prioritize_empty_query_witness:
  "prioritize ascii [] False sampleCourses = (sampleCourses, None) \<and>
   snd (prioritize ascii [] False sampleCourses) \<noteq> Some 0"
  by (rule prioritize_empty_query)

section \<open>The canonical order\<close>

lemma courseCompare_le: "(courseCompare a b \<le> 0) = (key a \<le> key b)"
  by (auto simp: courseCompare_def)

lemma insertSorted_courseCompare: "insertSorted courseCompare x ys = insort_key key x ys"
  by (induction ys) (simp_all add: courseCompare_le)

lemma arraySort_courseCompare: "arraySort courseCompare xs = sort_key key xs"
  by (induction xs) (simp_all add: insertSorted_courseCompare)

lemma loadLoop_all_parsed:
  "list_all2 (\<lambda>(csv, yr) cs. parseCoursesCsv parse csv yr = Some cs) sources parsed \<Longrightarrow>
   loadLoop parse sources courses = Inr (courses @ concat parsed)"
proof (induction sources arbitrary: parsed courses)
  case Nil
  then show ?case by simp
next
  case (Cons s sources)
  then obtain cs rest where p: "parsed = cs # rest"
    and h: "parseCoursesCsv parse (fst s) (snd s) = Some cs"
    and r: "list_all2 (\<lambda>(csv, yr) cs. parseCoursesCsv parse csv yr = Some cs) sources rest"
    by (auto simp: list_all2_Cons1 split: prod.splits)
  show ?case
    using Cons.IH[OF r, of "courses @ cs"] h by (cases s) (simp add: p assert'_def)
qed

text \<open>A source that does not parse stops the loading with the failed assertion.\<close>

lemma loadLoop_failure:
  "(csv, yr) \<in> set sources \<Longrightarrow> parseCoursesCsv parse csv yr = None \<Longrightarrow>
   loadLoop parse sources courses = Inl (Error ''Assertion failed'')"
  by (induction sources arbitrary: courses)
     (auto simp: assert'_def Let_def split: option.splits)

lemma loadCourses_sources:
  "loadCourses parse courses2023Csv courses2024Csv courses2025Csv =
     loadCoursesFrom parse
       [(courses2023Csv, 2023), (courses2024Csv, 2024), (courses2025Csv, 2025)]"
  by (simp add: loadCourses_def)

lemma sampleDecoder_parse_2024:
  "parseCoursesCsv sampleDecoder ''2024.csv'' 2024 = Some [sampleRecord 2024]"
  by code_simp

lemma sampleRecord_keys:
  "key (sampleRecord 2023) = ''CS101,2023'' \<and> key (sampleRecord 2024) = ''CS101,2024''"
  by code_simp

text \<open>
  Claim C6. When every source parses, the loading returns the records of all sources,
  sorted ascending by the lexicographic order of their keys: the result is a permutation
  of the concatenated parse results, its keys are in ascending order, records of equal
  key keep the order of the concatenation, and sorting the result again returns it
  unchanged.
\<close>

theorem loadCourses_canonical_order:
  assumes "list_all2 (\<lambda>(csv, yr) cs. parseCoursesCsv parse csv yr = Some cs) sources parsed"
  shows "\<exists>courses. loadCoursesFrom parse sources = Inr courses \<and>
           mset courses = mset (concat parsed) \<and>
           sorted (map key courses) \<and>
           courses = sort_key key (concat parsed) \<and>
           arraySort courseCompare courses = courses"
proof -
  let ?cs = "sort_key key (concat parsed)"
  have "loadCoursesFrom parse sources = Inr ?cs"
    using loadLoop_all_parsed[OF assms, of "[]"]
    by (simp add: loadCoursesFrom_def arraySort_courseCompare)
  moreover have "mset ?cs = mset (concat parsed)" by simp
  moreover have s: "sorted (map key ?cs)" by simp
  moreover have "arraySort courseCompare ?cs = ?cs"
    unfolding arraySort_courseCompare using s by (rule sort_key_id_if_sorted)
  ultimately show ?thesis by blast
qed

theorem loadCourses_canonical_order_witness:
  "list_all2 (\<lambda>(csv, yr) cs. parseCoursesCsv sampleDecoder csv yr = Some cs)
     [(''2024.csv'', 2024), (''2023.csv'', 2023)] [[sampleRecord 2024], [sampleRecord 2023]] \<and>
   loadCoursesFrom sampleDecoder [(''2024.csv'', 2024), (''2023.csv'', 2023)]
     = Inr [sampleRecord 2023, sampleRecord 2024] \<and>
   sorted (map key [sampleRecord 2023, sampleRecord 2024]) \<and>
   arraySort courseCompare [sampleRecord 2023, sampleRecord 2024]
     = [sampleRecord 2023, sampleRecord 2024]"
proof -
  have h: "list_all2 (\<lambda>(csv, yr) cs. parseCoursesCsv sampleDecoder csv yr = Some cs)
     [(''2024.csv'', 2024), (''2023.csv'', 2023)] [[sampleRecord 2024], [sampleRecord 2023]]"
    by (simp add: sampleDecoder_parse sampleDecoder_parse_2024)
  have s: "sort_key key (concat [[sampleRecord 2024], [sampleRecord 2023]])
           = [sampleRecord 2023, sampleRecord 2024]"
    by (simp add: sampleRecord_keys)
  from loadCourses_canonical_order [OF h] obtain courses where
    "loadCoursesFrom sampleDecoder [(''2024.csv'', 2024), (''2023.csv'', 2023)] = Inr courses"
    "sorted (map key courses)"
    "courses = sort_key key (concat [[sampleRecord 2024], [sampleRecord 2023]])"
    "arraySort courseCompare courses = courses"
    by blast
  with h s show ?thesis by simp
qed

section \<open>The spans\<close>

lemma rowSpans_eq:
  "rowSpans counts acc = acc @ concat (map (\<lambda>n. n # replicate (nat (n - 1)) 0) counts)"
  by (induction counts arbitrary: acc) simp_all

text \<open>The counts before the last one are carried along untouched.\<close>

lemma duplicateCounts_prefix:
  "duplicateCounts cs (counts @ [n]) (Some i) = counts @ duplicateCounts cs [n] (Some i)"
proof (induction cs arbitrary: counts n i)
  case Nil
  show ?case by simp
next
  case (Cons c cs)
  show ?case
  proof (cases "id' c = i")
    case True
    then show ?thesis using Cons.IH[of counts "n + 1" i] by (simp add: Let_def)
  next
    case False
    have "duplicateCounts (c # cs) (counts @ [n]) (Some i)
          = duplicateCounts cs ((counts @ [n]) @ [1]) (Some (id' c))"
      using False by (simp add: Let_def list_update_append nth_append)
    also have "\<dots> = (counts @ [n]) @ duplicateCounts cs [1] (Some (id' c))"
      by (rule Cons.IH)
    finally have a: "duplicateCounts (c # cs) (counts @ [n]) (Some i)
          = counts @ [n] @ duplicateCounts cs [1] (Some (id' c))" by simp
    have "duplicateCounts (c # cs) [n] (Some i)
          = duplicateCounts cs ([n] @ [1]) (Some (id' c))"
      using False by (simp add: Let_def)
    also have "\<dots> = [n] @ duplicateCounts cs [1] (Some (id' c))"
      by (rule Cons.IH)
    finally show ?thesis using a by simp
  qed
qed

text \<open>The spans of the rest of the input while a run of \<open>n\<close> records is open.\<close>

lemma spans_open_run:
  "1 \<le> n \<Longrightarrow>
   concat (map (\<lambda>n. n # replicate (nat (n - 1)) 0) (duplicateCounts cs [n] (Some i)))
   = (n + int (length (takeWhile (\<lambda>d. id' d = i) cs))) # replicate (nat (n - 1)) 0
       @ spansFrom (Some i) cs"
proof (induction cs arbitrary: n i)
  case Nil
  show ?case by simp
next
  case (Cons c cs)
  show ?case
  proof (cases "id' c = i")
    case True
    from Cons.prems have "nat n = Suc (nat (n - 1))" by simp
    then have r: "replicate (nat n) (0::int) = replicate (nat (n - 1)) 0 @ [0]"
      by (simp add: replicate_append_same)
    have "duplicateCounts (c # cs) [n] (Some i) = duplicateCounts cs [n + 1] (Some i)"
      using True by (simp add: Let_def)
    then show ?thesis
      using Cons.IH[of "n + 1" i] Cons.prems True by (simp add: r)
  next
    case False
    have "duplicateCounts (c # cs) [n] (Some i)
          = duplicateCounts cs ([n] @ [1]) (Some (id' c))"
      using False by (simp add: Let_def)
    also have "\<dots> = [n] @ duplicateCounts cs [1] (Some (id' c))"
      by (rule duplicateCounts_prefix)
    finally show ?thesis
      using Cons.IH[of 1 "id' c"] False by simp
  qed
qed

lemma visibleCourseIdRowSpans_spansFrom:
  "visibleCourseIdRowSpans cs = spansFrom None cs"
proof (cases cs)
  case Nil
  then show ?thesis by (simp add: visibleCourseIdRowSpans_def)
next
  case (Cons c cs')
  have "duplicateCounts (c # cs') [] None = duplicateCounts cs' [1] (Some (id' c))"
    by (simp add: Let_def)
  then show ?thesis
    using spans_open_run[of 1 cs' "id' c"]
    by (simp add: visibleCourseIdRowSpans_def rowSpans_eq Cons)
qed

lemma length_spansFrom: "length (spansFrom prev cs) = length cs"
  by (induction cs arbitrary: prev) simp_all

lemma spansFrom_nth:
  "j < length cs \<Longrightarrow>
   spansFrom prev cs ! j =
     (if (j = 0 \<and> prev \<noteq> Some (id' (cs ! 0))) \<or> (0 < j \<and> id' (cs ! (j - 1)) \<noteq> id' (cs ! j))
      then int (length (takeWhile (\<lambda>d. id' d = id' (cs ! j)) (drop j cs))) else 0)"
proof (induction cs arbitrary: prev j)
  case Nil
  then show ?case by simp
next
  case (Cons c cs)
  show ?case
  proof (cases j)
    case 0
    then show ?thesis by simp
  next
    case (Suc k)
    with Cons.prems have k: "k < length cs" by simp
    show ?thesis
      using Cons.IH[OF k, of "Some (id' c)"] Suc
      by (cases k) auto
  qed
qed

lemma length_visibleCourseIdRowSpans: "length (visibleCourseIdRowSpans cs) = length cs"
  by (simp add: visibleCourseIdRowSpans_spansFrom length_spansFrom)

lemma visibleCourseIdRowSpans_nth:
  "j < length cs \<Longrightarrow>
   visibleCourseIdRowSpans cs ! j = (if startsRun cs j then int (runLengthAt cs j) else 0)"
  by (simp add: visibleCourseIdRowSpans_spansFrom spansFrom_nth startsRun_def runLengthAt_def)

lemma runLengthAt_positive: "j < length cs \<Longrightarrow> 0 < runLengthAt cs j"
  by (simp add: runLengthAt_def Cons_nth_drop_Suc[symmetric])

lemma sum_list_spansFrom:
  "sum_list (spansFrom prev cs) =
     int (length (case prev of None \<Rightarrow> cs | Some i \<Rightarrow> dropWhile (\<lambda>d. id' d = i) cs))"
proof (induction cs arbitrary: prev)
  case Nil
  show ?case by (simp split: option.splits)
next
  case (Cons c cs)
  have "length (takeWhile (\<lambda>d. id' d = id' c) cs) + length (dropWhile (\<lambda>d. id' d = id' c) cs)
        = length cs"
    by (metis length_append takeWhile_dropWhile_id)
  then show ?case
    using Cons.IH[of "Some (id' c)"] by (auto split: option.splits)
qed

lemma runSample_spans: "visibleCourseIdRowSpans runSample = [2, 0, 1, 1]"
  by code_simp

text \<open>
  Claim C7. The spans have the length of the input. At a position that starts a maximal
  run of records of one identifier stands the length of the run, at every other
  position stands zero. Runs are runs of neighbours: for the identifiers \<open>A, A, B, A\<close>
  the spans are \<open>2, 0, 1, 1\<close>.
\<close>

theorem visibleCourseIdRowSpans_runs:
  "length (visibleCourseIdRowSpans cs) = length cs \<and>
   (\<forall>j < length cs. visibleCourseIdRowSpans cs ! j =
      (if startsRun cs j then int (runLengthAt cs j) else 0))"
  by (simp add: length_visibleCourseIdRowSpans visibleCourseIdRowSpans_nth)

theorem visibleCourseIdRowSpans_runs_witness:
  "map id' runSample = [''A'', ''A'', ''B'', ''A''] \<and>
   visibleCourseIdRowSpans runSample = [2, 0, 1, 1] \<and>
   length (visibleCourseIdRowSpans runSample) = length runSample \<and>
   (3::nat) < length runSample \<and> startsRun runSample 3 \<and>
   visibleCourseIdRowSpans runSample ! 3 = int (runLengthAt runSample 3) \<and>
   (1::nat) < length runSample \<and> \<not> startsRun runSample 1 \<and>
   visibleCourseIdRowSpans runSample ! 1 = 0"
proof -
  have i: "map id' runSample = [''A'', ''A'', ''B'', ''A'']" by code_simp
  have l: "(3::nat) < length runSample" "(1::nat) < length runSample"
    by (simp_all add: runSample_def)
  have s: "startsRun runSample 3" "\<not> startsRun runSample 1" by code_simp+
  from visibleCourseIdRowSpans_runs [of runSample] l s
  have "length (visibleCourseIdRowSpans runSample) = length runSample"
    "visibleCourseIdRowSpans runSample ! 3 = int (runLengthAt runSample 3)"
    "visibleCourseIdRowSpans runSample ! 1 = 0"
    by simp_all
  with i l s runSample_spans show ?thesis by simp
qed

text \<open>
  Claim C10. The spans sum to the length of the input; every span is zero or the
  positive length of the run that starts at its position; and the first span of a
  non-empty input is positive.
\<close>

theorem visibleCourseIdRowSpans_sum:
  "sum_list (visibleCourseIdRowSpans cs) = int (length cs) \<and>
   (\<forall>j < length cs. visibleCourseIdRowSpans cs ! j = 0 \<or>
      (0 < visibleCourseIdRowSpans cs ! j \<and>
       visibleCourseIdRowSpans cs ! j = int (runLengthAt cs j))) \<and>
   (cs \<noteq> [] \<longrightarrow> 0 < hd (visibleCourseIdRowSpans cs))"
proof -
  have "sum_list (visibleCourseIdRowSpans cs) = int (length cs)"
    by (simp add: visibleCourseIdRowSpans_spansFrom sum_list_spansFrom)
  moreover have "visibleCourseIdRowSpans cs ! j = 0 \<or>
      (0 < visibleCourseIdRowSpans cs ! j \<and>
       visibleCourseIdRowSpans cs ! j = int (runLengthAt cs j))" if "j < length cs" for j
    using that runLengthAt_positive[OF that] by (simp add: visibleCourseIdRowSpans_nth)
  moreover have "0 < hd (visibleCourseIdRowSpans cs)" if "cs \<noteq> []"
    using that by (cases cs) (simp_all add: visibleCourseIdRowSpans_spansFrom)
  ultimately show ?thesis by blast
qed

theorem visibleCourseIdRowSpans_sum_witness:
  "runSample \<noteq> [] \<and>
   sum_list (visibleCourseIdRowSpans runSample) = 4 \<and>
   0 < hd (visibleCourseIdRowSpans runSample) \<and>
   (2::nat) < length runSample \<and>
   0 < visibleCourseIdRowSpans runSample ! 2 \<and>
   visibleCourseIdRowSpans runSample ! 2 = int (runLengthAt runSample 2)"
proof -
  have n: "runSample \<noteq> []" and l: "(2::nat) < length runSample" and m: "int (length runSample) = 4"
    by (simp_all add: runSample_def)
  have z: "visibleCourseIdRowSpans runSample ! 2 \<noteq> 0"
    by (simp add: runSample_spans)
  note T = visibleCourseIdRowSpans_sum [of runSample]
  from T m have a: "sum_list (visibleCourseIdRowSpans runSample) = 4" by simp
  from T n have b: "0 < hd (visibleCourseIdRowSpans runSample)" by blast
  from T l have "visibleCourseIdRowSpans runSample ! 2 = 0 \<or>
      (0 < visibleCourseIdRowSpans runSample ! 2 \<and>
       visibleCourseIdRowSpans runSample ! 2 = int (runLengthAt runSample 2))"
    by blast
  with z n l a b show ?thesis by blast
qed

section \<open>The whole derivation\<close>

text \<open>The derived view is the filter, then the ranking of its result, then the spans of
  the ranked records.\<close>

lemma derived_eq:
  "derived js st courses =
     (let visible = fst (filterCourses js st courses);
          ranked = fst (prioritize js (priorityString st) (showDescription st) visible)
      in (ranked, visibleCourseIdRowSpans ranked, snd (filterCourses js st courses),
          snd (prioritize js (priorityString st) (showDescription st) visible)))"
  by (simp add: derived_def Let_def split_beta)

end
